theory Spec2Isabelle
  imports Main
begin

section \<open>Data model\<close>

text \<open>
  The relay is the function \<open>setupSockets\<close> of the server's socket module. The repository
  holds two variants of it: the reconciling one (presence map from a user id to a set of
  socket ids, reactions, reply references) and an earlier one (presence map from a user id
  to one socket id). Both are embedded here; the earlier one carries the suffix \<open>_v1\<close>.

  User ids and socket ids are the strings of the source. A message id is the position of
  the document in the message log: the store assigns it at \<open>save\<close>, and documents are never
  deleted by the relay. Dates are natural numbers supplied with each event (the value
  \<open>new Date()\<close> takes while the handler runs).

  Every handler is embedded as a function from the state before to the state after and
  the list of emitted events, in emission order. The \<open>send_message\<close> handler is embedded
  await by await, so that other handlers can run while one of its runs is suspended; a run
  of any other handler is one step. The updates of the User collection outside any \<open>try\<close>
  block are taken not to throw.
\<close>

type_synonym uid = string
type_synonym socket_id = string
type_synonym room = string
type_synonym msg_id = nat
type_synonym time = nat

datatype status = Sent | Delivered | Seen

fun rank :: "status \<Rightarrow> nat" where
  "rank Sent = 0"
| "rank Delivered = 1"
| "rank Seen = 2"

text \<open>A reaction subdocument: \<open>(emoji, user_id)\<close>.\<close>

type_synonym reaction = "string \<times> uid"

record message_doc =
  sender_id :: uid
  receiver_id :: uid
  message :: string
  media_url :: "string option"
  media_type :: "string option"
  media_name :: "string option"
  status :: status
  timestamp :: time
  seen_at :: "time option"
  reactions :: "reaction list"
  reply_to :: "msg_id option"

text \<open>The payload of the inbound \<open>send_message\<close> event.\<close>

record send_payload =
  receiverId :: uid
  messageText :: string
  mediaUrl :: "string option"
  mediaType :: "string option"
  mediaName :: "string option"
  replyTo :: "msg_id option"

text \<open>
  The fields that \<open>populate('reply_to', 'message media_type media_name sender_id')\<close>
  selects from the referenced message.
\<close>

type_synonym reply_preview = "string \<times> string option \<times> string option \<times> uid"

type_synonym message_data = "msg_id \<times> message_doc \<times> reply_preview option"

datatype audience = ToAll | ToRoom room | ToSocket socket_id

datatype payload =
    UserOnline uid time
  | UserOffline uid time
  | MessageStatus msg_id status
  | ReceiveMessage message_data
  | MessageSent message_data
  | MessageReaction msg_id "reaction list"
  | Typing uid
  | StopTyping uid

type_synonym emit = "audience \<times> payload"

text \<open>
  The store calls made inside a \<open>try\<close> block. A handler run is given the call that throws
  during that run, if any; the \<open>catch\<close> block only logs.
\<close>

datatype store_call =
    MessageFind
  | MessageUpdateMany
  | MessageSave
  | MessagePopulate
  | MessageFindById
  | MessageFindByIdAndUpdate

text \<open>
  \<open>activeUsers\<close> is the exported presence map. \<open>socket_user\<close> is \<open>socket.user.id\<close>, which the
  handshake middleware sets, for each connected socket. \<open>rooms\<close> is the transport library's
  record of the rooms each socket is in: a connected socket is in the room named by its
  own socket id, \<open>socket.join(userId)\<close> adds the personal room, and a socket that
  disconnects leaves every room. \<open>messages\<close> is the Message collection and \<open>last_seen\<close> the
  field of that name in the User collection.
\<close>

record state =
  activeUsers :: "uid \<rightharpoonup> socket_id set"
  socket_user :: "socket_id \<rightharpoonup> uid"
  rooms :: "socket_id \<Rightarrow> room set"
  messages :: "message_doc list"
  last_seen :: "uid \<rightharpoonup> time"

definition state0 :: state where
  "state0 = \<lparr>activeUsers = Map.empty, socket_user = Map.empty, rooms = (\<lambda>c. {}),
              messages = [], last_seen = Map.empty\<rparr>"

section \<open>Delivery of emitted events\<close>

text \<open>
  \<open>io.emit\<close> reaches every connected socket, that is every socket that is in some room
  (at least the one of its own id); \<open>io.to(room).emit\<close> reaches the sockets that are in
  the room, be it a personal room or the room of a socket id; \<open>socket.emit\<close> reaches the
  one socket. The first argument is the room record at the time of the emission.
\<close>

fun receives :: "(socket_id \<Rightarrow> room set) \<Rightarrow> socket_id \<Rightarrow> audience \<Rightarrow> bool" where
  "receives rs c ToAll = (rs c \<noteq> {})"
| "receives rs c (ToRoom r) = (r \<in> rs c)"
| "receives rs c (ToSocket c') = (c = c')"

definition inbox :: "(socket_id \<Rightarrow> room set) \<Rightarrow> socket_id \<Rightarrow> emit list \<Rightarrow> payload list" where
  "inbox rs c out = map snd (filter (\<lambda>e. receives rs c (fst e)) out)"

section \<open>Store operations\<close>

definition findById :: "message_doc list \<Rightarrow> msg_id \<Rightarrow> message_doc option" where
  "findById ms i = (if i < length ms then Some (ms ! i) else None)"

definition findByIdAndUpdate ::
  "message_doc list \<Rightarrow> msg_id \<Rightarrow> (message_doc \<Rightarrow> message_doc) \<Rightarrow> message_doc list" where
  "findByIdAndUpdate ms i f = (if i < length ms then ms[i := f (ms ! i)] else ms)"

text \<open>\<open>Message.find({ receiver_id: userId, status: 'sent' })\<close>, each document with its id.\<close>

definition find_undelivered :: "message_doc list \<Rightarrow> uid \<Rightarrow> (msg_id \<times> message_doc) list" where
  "find_undelivered ms userId =
     filter (\<lambda>(i, m). receiver_id m = userId \<and> status m = Sent) (enumerate 0 ms)"

text \<open>\<open>Message.updateMany({ receiver_id: userId, status: 'sent' }, { status: 'delivered' })\<close>.\<close>

definition updateMany_delivered :: "message_doc list \<Rightarrow> uid \<Rightarrow> message_doc list" where
  "updateMany_delivered ms userId =
     map (\<lambda>m. if receiver_id m = userId \<and> status m = Sent then m\<lparr>status := Delivered\<rparr> else m) ms"

definition populate :: "message_doc list \<Rightarrow> message_doc \<Rightarrow> reply_preview option" where
  "populate ms m =
     (case reply_to m of
        None \<Rightarrow> None
      | Some r \<Rightarrow>
          (case findById ms r of
             None \<Rightarrow> None
           | Some t \<Rightarrow> Some (message t, media_type t, media_name t, sender_id t)))"

text \<open>\<open>User.findByIdAndUpdate(userId, { last_seen: new Date() })\<close>: an unknown id changes nothing.\<close>

definition User_findByIdAndUpdate :: "(uid \<rightharpoonup> time) \<Rightarrow> uid \<Rightarrow> time \<Rightarrow> (uid \<rightharpoonup> time)" where
  "User_findByIdAndUpdate ls userId now = (if ls userId = None then ls else ls(userId \<mapsto> now))"

text \<open>\<open>x || null\<close> on an optional string: the empty string is falsy.\<close>

fun or_null :: "string option \<Rightarrow> string option" where
  "or_null None = None"
| "or_null (Some x) = (if x = [] then None else Some x)"

text \<open>\<open>new Set(xs)\<close> iterated with \<open>forEach\<close>: the elements in the order of first insertion.\<close>

definition Set_of :: "'a list \<Rightarrow> 'a list" where
  "Set_of xs = fold (\<lambda>x acc. if x \<in> set acc then acc else acc @ [x]) xs []"

section \<open>The handshake middleware\<close>

text \<open>
  \<open>io.use\<close>: a missing token or one that \<open>verifyToken\<close> rejects refuses the connection.
  \<open>verifyToken\<close> wraps the JWT library and is a parameter.
\<close>

definition io_use :: "(string \<Rightarrow> uid option) \<Rightarrow> string option \<Rightarrow> uid option" where
  "io_use verifyToken token =
     (case token of
        None \<Rightarrow> None
      | Some t \<Rightarrow> if t = [] then None else verifyToken t)"

section \<open>The handlers of the reconciling variant\<close>

definition is_online :: "state \<Rightarrow> uid \<Rightarrow> bool" where
  "is_online s userId =
     (case activeUsers s userId of None \<Rightarrow> False | Some socks \<Rightarrow> socks \<noteq> {})"

text \<open>The \<open>// Notify senders\<close> loop of the connection handler.\<close>

definition notify_senders :: "(msg_id \<times> message_doc) list \<Rightarrow> emit list" where
  "notify_senders undeliveredMessages =
     concat (map (\<lambda>senderId.
               map (\<lambda>(i, m). (ToRoom senderId, MessageStatus i Delivered))
                 (filter (\<lambda>(i, m). sender_id m = senderId) undeliveredMessages))
             (Set_of (map (\<lambda>(i, m). sender_id m) undeliveredMessages)))"

text \<open>The \<open>// Mark undelivered messages as delivered\<close> block of the connection handler.\<close>

definition mark_undelivered :: "state \<Rightarrow> uid \<Rightarrow> store_call option \<Rightarrow> state \<times> emit list" where
  "mark_undelivered s userId fault =
     (if fault = Some MessageFind then (s, [])
      else
        let undeliveredMessages = find_undelivered (messages s) userId in
        if undeliveredMessages = [] then (s, [])
        else if fault = Some MessageUpdateMany then (s, [])
        else (s\<lparr>messages := updateMany_delivered (messages s) userId\<rparr>,
              notify_senders undeliveredMessages))"

definition connection ::
  "state \<Rightarrow> socket_id \<Rightarrow> uid \<Rightarrow> time \<Rightarrow> store_call option \<Rightarrow> state \<times> emit list" where
  "connection s sock userId now fault =
     (let au0 = (if activeUsers s userId = None then (activeUsers s)(userId \<mapsto> {})
                 else activeUsers s);
          au1 = au0(userId \<mapsto> insert sock (case au0 userId of None \<Rightarrow> {} | Some socks \<Rightarrow> socks));
          s1 = s\<lparr>activeUsers := au1,
                 last_seen := User_findByIdAndUpdate (last_seen s) userId now\<rparr>
      in case mark_undelivered s1 userId fault of
           (s2, notes) \<Rightarrow>
             (s2\<lparr>rooms := (rooms s2)(sock := insert userId (rooms s2 sock))\<rparr>,
              (ToAll, UserOnline userId now) # notes))"

definition new_message :: "uid \<Rightarrow> send_payload \<Rightarrow> time \<Rightarrow> message_doc" where
  "new_message userId d now =
     \<lparr>sender_id = userId, receiver_id = receiverId d, message = messageText d,
      media_url = or_null (mediaUrl d), media_type = or_null (mediaType d),
      media_name = or_null (mediaName d), status = Sent, timestamp = now,
      seen_at = None, reactions = [], reply_to = replyTo d\<rparr>"

text \<open>
  The \<open>send_message\<close> handler awaits four store calls: \<open>save\<close>, \<open>populate\<close>,
  \<open>Message.findById\<close> and \<open>Message.findByIdAndUpdate\<close>. A store call acts on the store when
  it is issued; the run is then suspended until the result arrives, and keeps in its local
  variables what it will need. A suspended run is one of:
  \<^item> \<open>AwaitSave\<close>: \<open>newMessage.save()\<close> is under way;
  \<^item> \<open>AwaitPopulate\<close>: \<open>populate\<close> is under way, and has read the reply preview;
  \<^item> \<open>AwaitFindById\<close>: the re-read is under way, and has read \<open>currentMsg\<close>;
  \<^item> \<open>AwaitUpdate\<close>: the write of \<open>delivered\<close> is under way.
  A call that throws ends the run in the \<open>catch\<close> block.
\<close>

datatype suspended =
    AwaitSave socket_id uid uid msg_id message_doc
  | AwaitPopulate socket_id uid uid message_data
  | AwaitFindById uid msg_id "message_doc option"
  | AwaitUpdate uid msg_id

text \<open>From the arrival of the event to \<open>await newMessage.save()\<close>.\<close>

definition send_message_start ::
  "state \<Rightarrow> socket_id \<Rightarrow> uid \<Rightarrow> send_payload \<Rightarrow> time \<Rightarrow> store_call option
     \<Rightarrow> state \<times> emit list \<times> suspended option" where
  "send_message_start s sock userId d now fault =
     (if fault = Some MessageSave then (s, [], None)
      else (s\<lparr>messages := messages s @ [new_message userId d now]\<rparr>, [],
            Some (AwaitSave sock userId (receiverId d) (length (messages s))
                    (new_message userId d now))))"

text \<open>
  From one \<open>await\<close> to the next. The third equation is the guard
  \<open>// Only update to delivered if it hasn't been marked as seen already\<close>: it tests the
  document that the re-read returned, and the write that follows it sets \<open>delivered\<close>
  whatever the store holds by then.
\<close>

fun send_message_resume ::
  "state \<Rightarrow> suspended \<Rightarrow> store_call option \<Rightarrow> state \<times> emit list \<times> suspended option" where
  "send_message_resume s (AwaitSave sock userId receiverId' newId newMessage) fault =
     (if fault = Some MessagePopulate then (s, [], None)
      else (s, [],
            Some (AwaitPopulate sock userId receiverId'
                    (newId, newMessage, populate (messages s) newMessage))))"
| "send_message_resume s (AwaitPopulate sock userId receiverId' messageData) fault =
     (let out = [(ToRoom receiverId', ReceiveMessage messageData),
                 (ToSocket sock, MessageSent messageData)]
      in if is_online s receiverId'
         then if fault = Some MessageFindById then (s, out, None)
              else (s, out,
                    Some (AwaitFindById userId (fst messageData)
                            (findById (messages s) (fst messageData))))
         else (s, out, None))"
| "send_message_resume s (AwaitFindById userId newId currentMsg) fault =
     (case currentMsg of
        None \<Rightarrow> (s, [], None)
      | Some cur \<Rightarrow>
          if status cur = Sent
          then if fault = Some MessageFindByIdAndUpdate then (s, [], None)
               else (s\<lparr>messages :=
                        findByIdAndUpdate (messages s) newId (\<lambda>m. m\<lparr>status := Delivered\<rparr>)\<rparr>,
                     [], Some (AwaitUpdate userId newId))
          else (s, [], None))"
| "send_message_resume s (AwaitUpdate userId newId) fault =
     (s, [(ToRoom userId, MessageStatus newId Delivered)], None)"

text \<open>One more stretch of a run, if the run is not over.\<close>

definition then_resume ::
  "state \<times> emit list \<times> suspended option \<Rightarrow> store_call option
     \<Rightarrow> state \<times> emit list \<times> suspended option" where
  "then_resume r fault =
     (case r of
        (s, out, None) \<Rightarrow> (s, out, None)
      | (s, out, Some k) \<Rightarrow>
          (case send_message_resume s k fault of (s', out', k') \<Rightarrow> (s', out @ out', k')))"

text \<open>
  A run of \<open>send_message\<close> that nothing interrupts: the handler from the event to its end,
  through its four awaits.
\<close>

definition send_message ::
  "state \<Rightarrow> socket_id \<Rightarrow> uid \<Rightarrow> send_payload \<Rightarrow> time \<Rightarrow> store_call option \<Rightarrow> state \<times> emit list" where
  "send_message s sock userId d now fault =
     (case then_resume (then_resume (then_resume (then_resume
             (send_message_start s sock userId d now fault) fault) fault) fault) fault of
        (s', out, k) \<Rightarrow> (s', out))"

definition message_seen ::
  "state \<Rightarrow> msg_id \<Rightarrow> uid \<Rightarrow> time \<Rightarrow> store_call option \<Rightarrow> state \<times> emit list" where
  "message_seen s messageId senderId now fault =
     (if fault = Some MessageFindByIdAndUpdate then (s, [])
      else (s\<lparr>messages :=
               findByIdAndUpdate (messages s) messageId
                 (\<lambda>m. m\<lparr>status := Seen, seen_at := Some now\<rparr>)\<rparr>,
            [(ToRoom senderId, MessageStatus messageId Seen)]))"

text \<open>
  \<open>message.reactions.find(...)\<close> is \<open>find\<close>; \<open>pull(existingReaction._id)\<close> removes the
  subdocument that \<open>find\<close> returned (subdocument ids are unique), which is \<open>remove1\<close>.
\<close>

definition toggle_reaction :: "reaction list \<Rightarrow> uid \<Rightarrow> string \<Rightarrow> reaction list" where
  "toggle_reaction rs userId emoji =
     (case find (\<lambda>r. snd r = userId \<and> fst r = emoji) rs of
        Some existingReaction \<Rightarrow> remove1 existingReaction rs
      | None \<Rightarrow> rs @ [(emoji, userId)])"

definition react_message ::
  "state \<Rightarrow> uid \<Rightarrow> msg_id \<Rightarrow> string \<Rightarrow> store_call option \<Rightarrow> state \<times> emit list" where
  "react_message s userId messageId emoji fault =
     (if fault = Some MessageFindById then (s, [])
      else
        case findById (messages s) messageId of
          None \<Rightarrow> (s, [])
        | Some msg \<Rightarrow>
            let rs = toggle_reaction (reactions msg) userId emoji in
            if fault = Some MessageSave then (s, [])
            else (s\<lparr>messages := (messages s)[messageId := msg\<lparr>reactions := rs\<rparr>]\<rparr>,
                  [(ToRoom (sender_id msg), MessageReaction messageId rs),
                   (ToRoom (receiver_id msg), MessageReaction messageId rs)]))"

definition typing :: "state \<Rightarrow> uid \<Rightarrow> uid \<Rightarrow> state \<times> emit list" where
  "typing s userId receiverId' = (s, [(ToRoom receiverId', Typing userId)])"

definition stop_typing :: "state \<Rightarrow> uid \<Rightarrow> uid \<Rightarrow> state \<times> emit list" where
  "stop_typing s userId receiverId' = (s, [(ToRoom receiverId', StopTyping userId)])"

text \<open>
  The \<open>disconnect\<close> handler. A JavaScript \<open>Set\<close> is finite, so \<open>size === 0\<close> is emptiness.
\<close>

definition disconnect :: "state \<Rightarrow> socket_id \<Rightarrow> uid \<Rightarrow> time \<Rightarrow> state \<times> emit list" where
  "disconnect s sock userId now =
     (case activeUsers s userId of
        None \<Rightarrow> (s, [])
      | Some userSockets \<Rightarrow>
          if userSockets - {sock} = {}
          then (s\<lparr>activeUsers := (activeUsers s)(userId := None),
                  last_seen := User_findByIdAndUpdate (last_seen s) userId now\<rparr>,
                [(ToAll, UserOffline userId now)])
          else (s\<lparr>activeUsers := (activeUsers s)(userId \<mapsto> userSockets - {sock})\<rparr>, []))"

text \<open>
  What the transport has done when the connection handler starts: the middleware has set
  \<open>socket.user\<close> and the socket is in the room of its own id. And what it has done when the
  \<open>disconnect\<close> handler starts: the socket has left its rooms.
\<close>

definition admit :: "state \<Rightarrow> socket_id \<Rightarrow> uid \<Rightarrow> state" where
  "admit s sock userId =
     s\<lparr>socket_user := (socket_user s)(sock \<mapsto> userId), rooms := (rooms s)(sock := {sock})\<rparr>"

definition release :: "state \<Rightarrow> socket_id \<Rightarrow> state" where
  "release s sock = s\<lparr>socket_user := (socket_user s)(sock := None), rooms := (rooms s)(sock := {})\<rparr>"

section \<open>Events and runs\<close>

text \<open>
  An inbound event reaches the handlers that the connection handler registered on the
  socket, whose \<open>userId\<close> is the one the socket connected with. \<open>Connect\<close> carries the
  result of the handshake middleware. In \<open>step\<close> and \<open>run\<close> every handler run, that of
  \<open>send_message\<close> included, goes from the event to its end before the next event is
  handled.
\<close>

datatype inbound =
    SendMessage send_payload
  | MessageSeen msg_id uid
  | ReactMessage msg_id string
  | TypingTo uid
  | StopTypingTo uid
  | Disconnect

datatype event = Connect socket_id "uid option" | FromSocket socket_id inbound

type_synonym occurrence = "event \<times> time \<times> store_call option"

fun handle :: "state \<Rightarrow> socket_id \<Rightarrow> uid \<Rightarrow> inbound \<Rightarrow> time \<Rightarrow> store_call option \<Rightarrow> state \<times> emit list" where
  "handle s sock userId (SendMessage d) now fault = send_message s sock userId d now fault"
| "handle s sock userId (MessageSeen messageId senderId) now fault =
     message_seen s messageId senderId now fault"
| "handle s sock userId (ReactMessage messageId emoji) now fault =
     react_message s userId messageId emoji fault"
| "handle s sock userId (TypingTo r) now fault = typing s userId r"
| "handle s sock userId (StopTypingTo r) now fault = stop_typing s userId r"
| "handle s sock userId Disconnect now fault = disconnect (release s sock) sock userId now"

fun step :: "state \<Rightarrow> occurrence \<Rightarrow> state \<times> emit list" where
  "step s (Connect sock decoded, now, fault) =
     (case decoded of
        None \<Rightarrow> (s, [])
      | Some userId \<Rightarrow> connection (admit s sock userId) sock userId now fault)"
| "step s (FromSocket sock ev, now, fault) =
     (case socket_user s sock of
        None \<Rightarrow> (s, [])
      | Some userId \<Rightarrow> handle s sock userId ev now fault)"

fun run :: "state \<Rightarrow> occurrence list \<Rightarrow> state \<times> emit list" where
  "run s [] = (s, [])"
| "run s (e # es) =
     (case step s e of
        (s1, out1) \<Rightarrow> (case run s1 es of (s2, out2) \<Rightarrow> (s2, out1 @ out2)))"

section \<open>Runs of send_message that other handlers interleave with\<close>

text \<open>
  A world is the state together with the suspended runs of \<open>send_message\<close>, each with the
  store call that throws during that run, if any. \<open>Arrive\<close> handles an event: a
  \<open>send_message\<close> runs to its first \<open>await\<close> and is suspended, any other handler runs to
  its end. \<open>Resume n\<close> takes the \<open>n\<close>-th suspended run to its next \<open>await\<close> or to its end.
\<close>

type_synonym world = "state \<times> (store_call option \<times> suspended) list"

datatype move = Arrive occurrence | Resume nat

fun sched_step :: "world \<Rightarrow> move \<Rightarrow> world \<times> emit list" where
  "sched_step (s, ks) (Arrive (FromSocket sock (SendMessage d), now, fault)) =
     (case socket_user s sock of
        None \<Rightarrow> ((s, ks), [])
      | Some userId \<Rightarrow>
          (case send_message_start s sock userId d now fault of
             (s1, out, k) \<Rightarrow>
               ((s1, ks @ (case k of None \<Rightarrow> [] | Some x \<Rightarrow> [(fault, x)])), out)))"
| "sched_step (s, ks) (Arrive e) = (case step s e of (s1, out) \<Rightarrow> ((s1, ks), out))"
| "sched_step (s, ks) (Resume n) =
     (if n < length ks
      then (case send_message_resume s (snd (ks ! n)) (fst (ks ! n)) of
              (s1, out, k) \<Rightarrow>
                ((s1, (case k of
                         None \<Rightarrow> take n ks @ drop (Suc n) ks
                       | Some x \<Rightarrow> ks[n := (fst (ks ! n), x)])),
                 out))
      else ((s, ks), []))"

fun sched_run :: "world \<Rightarrow> move list \<Rightarrow> world \<times> emit list" where
  "sched_run w [] = (w, [])"
| "sched_run w (m # ms) =
     (case sched_step w m of
        (w1, out1) \<Rightarrow> (case sched_run w1 ms of (w2, out2) \<Rightarrow> (w2, out1 @ out2)))"

section \<open>The handlers of the earlier variant\<close>

text \<open>
  The earlier variant keeps one socket id per user in its presence map, broadcasts
  \<open>user_online\<close> and \<open>user_offline\<close> on every connection and disconnection, has no
  reconciliation block and no \<open>react_message\<close> handler, and moves a new message to
  \<open>delivered\<close> without reading it again. Its message schema has no reactions and no reply
  reference: its documents are those of \<open>message_doc\<close> with both left empty. Each of its
  handler runs is embedded as one step.
\<close>

record state_v1 =
  activeUsers_v1 :: "uid \<rightharpoonup> socket_id"
  socket_user_v1 :: "socket_id \<rightharpoonup> uid"
  rooms_v1 :: "socket_id \<Rightarrow> room set"
  messages_v1 :: "message_doc list"
  last_seen_v1 :: "uid \<rightharpoonup> time"

definition connection_v1 :: "state_v1 \<Rightarrow> socket_id \<Rightarrow> uid \<Rightarrow> time \<Rightarrow> state_v1 \<times> emit list" where
  "connection_v1 s sock userId now =
     (s\<lparr>activeUsers_v1 := (activeUsers_v1 s)(userId \<mapsto> sock),
        last_seen_v1 := User_findByIdAndUpdate (last_seen_v1 s) userId now,
        rooms_v1 := (rooms_v1 s)(sock := insert userId (rooms_v1 s sock))\<rparr>,
      [(ToAll, UserOnline userId now)])"

definition send_message_v1 ::
  "state_v1 \<Rightarrow> socket_id \<Rightarrow> uid \<Rightarrow> send_payload \<Rightarrow> time \<Rightarrow> store_call option \<Rightarrow> state_v1 \<times> emit list" where
  "send_message_v1 s sock userId d now fault =
     (if fault = Some MessageSave then (s, [])
      else
        let newId = length (messages_v1 s);
            newMessage = new_message userId (d\<lparr>replyTo := None\<rparr>) now;
            s1 = s\<lparr>messages_v1 := messages_v1 s @ [newMessage]\<rparr>;
            messageData = (newId, newMessage, None);
            out = [(ToRoom (receiverId d), ReceiveMessage messageData),
                   (ToSocket sock, MessageSent messageData)]
        in if activeUsers_v1 s1 (receiverId d) \<noteq> None
           then if fault = Some MessageFindByIdAndUpdate then (s1, out)
                else (s1\<lparr>messages_v1 :=
                          findByIdAndUpdate (messages_v1 s1) newId (\<lambda>m. m\<lparr>status := Delivered\<rparr>)\<rparr>,
                      out @ [(ToRoom userId, MessageStatus newId Delivered)])
           else (s1, out))"

definition message_seen_v1 ::
  "state_v1 \<Rightarrow> msg_id \<Rightarrow> uid \<Rightarrow> time \<Rightarrow> store_call option \<Rightarrow> state_v1 \<times> emit list" where
  "message_seen_v1 s messageId senderId now fault =
     (if fault = Some MessageFindByIdAndUpdate then (s, [])
      else (s\<lparr>messages_v1 :=
               findByIdAndUpdate (messages_v1 s) messageId
                 (\<lambda>m. m\<lparr>status := Seen, seen_at := Some now\<rparr>)\<rparr>,
            [(ToRoom senderId, MessageStatus messageId Seen)]))"

definition disconnect_v1 :: "state_v1 \<Rightarrow> socket_id \<Rightarrow> uid \<Rightarrow> time \<Rightarrow> state_v1 \<times> emit list" where
  "disconnect_v1 s sock userId now =
     (s\<lparr>activeUsers_v1 := (activeUsers_v1 s)(userId := None),
        last_seen_v1 := User_findByIdAndUpdate (last_seen_v1 s) userId now\<rparr>,
      [(ToAll, UserOffline userId now)])"

text \<open>An event with no registered listener (\<open>react_message\<close> here) is dropped.\<close>

fun handle_v1 ::
  "state_v1 \<Rightarrow> socket_id \<Rightarrow> uid \<Rightarrow> inbound \<Rightarrow> time \<Rightarrow> store_call option \<Rightarrow> state_v1 \<times> emit list" where
  "handle_v1 s sock userId (SendMessage d) now fault = send_message_v1 s sock userId d now fault"
| "handle_v1 s sock userId (MessageSeen messageId senderId) now fault =
     message_seen_v1 s messageId senderId now fault"
| "handle_v1 s sock userId (ReactMessage messageId emoji) now fault = (s, [])"
| "handle_v1 s sock userId (TypingTo r) now fault = (s, [(ToRoom r, Typing userId)])"
| "handle_v1 s sock userId (StopTypingTo r) now fault = (s, [(ToRoom r, StopTyping userId)])"
| "handle_v1 s sock userId Disconnect now fault =
     disconnect_v1
       (s\<lparr>socket_user_v1 := (socket_user_v1 s)(sock := None), rooms_v1 := (rooms_v1 s)(sock := {})\<rparr>)
       sock userId now"

fun step_v1 :: "state_v1 \<Rightarrow> occurrence \<Rightarrow> state_v1 \<times> emit list" where
  "step_v1 s (Connect sock decoded, now, fault) =
     (case decoded of
        None \<Rightarrow> (s, [])
      | Some userId \<Rightarrow>
          connection_v1
            (s\<lparr>socket_user_v1 := (socket_user_v1 s)(sock \<mapsto> userId),
               rooms_v1 := (rooms_v1 s)(sock := {sock})\<rparr>)
            sock userId now)"
| "step_v1 s (FromSocket sock ev, now, fault) =
     (case socket_user_v1 s sock of
        None \<Rightarrow> (s, [])
      | Some userId \<Rightarrow> handle_v1 s sock userId ev now fault)"

fun run_v1 :: "state_v1 \<Rightarrow> occurrence list \<Rightarrow> state_v1 \<times> emit list" where
  "run_v1 s [] = (s, [])"
| "run_v1 s (e # es) =
     (case step_v1 s e of
        (s1, out1) \<Rightarrow> (case run_v1 s1 es of (s2, out2) \<Rightarrow> (s2, out1 @ out2)))"

section \<open>Observations on emitted events and stored messages\<close>

fun is_message_sent :: "payload \<Rightarrow> bool" where
  "is_message_sent (MessageSent d) = True"
| "is_message_sent _ = False"

fun is_message_status :: "payload \<Rightarrow> bool" where
  "is_message_status (MessageStatus i st) = True"
| "is_message_status _ = False"

text \<open>The \<open>messageData\<close> that a \<open>send_message\<close> run builds from the state it starts in.\<close>

definition sent_data :: "state \<Rightarrow> uid \<Rightarrow> send_payload \<Rightarrow> time \<Rightarrow> message_data" where
  "sent_data s userId d now =
     (length (messages s), new_message userId d now,
      populate (messages s @ [new_message userId d now]) (new_message userId d now))"

text \<open>No message holds the same (emoji, user) pair twice.\<close>

definition reactions_ok :: "state \<Rightarrow> bool" where
  "reactions_ok s = list_all (\<lambda>m. distinct (reactions m)) (messages s)"

text \<open>
  A connected socket is in the room of its own id and in the personal room of its user; a
  socket that is not connected is in no room.
\<close>

definition socket_rooms_ok :: "state \<Rightarrow> socket_id \<Rightarrow> bool" where
  "socket_rooms_ok s c =
     (case socket_user s c of None \<Rightarrow> rooms s c = {} | Some u \<Rightarrow> rooms s c = {c, u})"

section \<open>A scenario\<close>

text \<open>
  Alice opens two tabs and Carol one; Alice sends "hi" to Bob, who is offline; Bob
  connects; Bob reports the message as seen.
\<close>

definition alice_hi :: send_payload where
  "alice_hi = \<lparr>receiverId = ''bob'', messageText = ''hi'', mediaUrl = None, mediaType = None,
     mediaName = None, replyTo = None\<rparr>"

definition lobby :: state where
  "lobby = fst (run state0
     [(Connect ''a1'' (Some ''alice''), 1, None),
      (Connect ''a2'' (Some ''alice''), 2, None),
      (Connect ''c1'' (Some ''carol''), 3, None)])"

definition pending :: state where
  "pending = fst (step lobby (FromSocket ''a1'' (SendMessage alice_hi), 4, None))"

definition reconciled :: state where
  "reconciled = fst (step pending (Connect ''b1'' (Some ''bob''), 5, None))"

definition seen_state :: state where
  "seen_state = fst (step reconciled (FromSocket ''b1'' (MessageSeen 0 ''alice''), 6, None))"

text \<open>
  A backlog: with Bob still offline, Alice, then Carol, then Alice again send him a
  message.
\<close>

definition carol_yo :: send_payload where
  "carol_yo = \<lparr>receiverId = ''bob'', messageText = ''yo'', mediaUrl = None, mediaType = None,
     mediaName = None, replyTo = None\<rparr>"

definition backlog :: state where
  "backlog = fst (run pending
     [(FromSocket ''c1'' (SendMessage carol_yo), 5, None),
      (FromSocket ''a2'' (SendMessage alice_hi), 6, None)])"

text \<open>
  A race. Bob is online. Alice sends him a second message, number 1; its run is taken to
  the \<open>await\<close> of its re-read; Bob's client answers the \<open>receive_message\<close> it got with
  \<open>message_seen\<close>; then the run of \<open>send_message\<close> is resumed to its end.
\<close>

definition race_until_seen :: "move list" where
  "race_until_seen =
     [Arrive (FromSocket ''a1'' (SendMessage alice_hi), 7, None), Resume 0, Resume 0,
      Arrive (FromSocket ''b1'' (MessageSeen 1 ''alice''), 8, None)]"

definition race :: "move list" where
  "race = race_until_seen @ [Resume 0, Resume 0]"

section \<open>The uninterrupted run of send_message\<close>

text \<open>
  When nothing interrupts it, the run re-reads the document it has just saved, whose
  status is \<open>sent\<close>: the guard passes, and the handler is this function.
\<close>

lemma send_message_unfold:
  "send_message s sock userId d now fault =
     (if fault = Some MessageSave then (s, [])
      else if fault = Some MessagePopulate
      then (s\<lparr>messages := messages s @ [new_message userId d now]\<rparr>, [])
      else if is_online s (receiverId d) \<and> fault \<noteq> Some MessageFindById
                \<and> fault \<noteq> Some MessageFindByIdAndUpdate
      then (s\<lparr>messages := messages s @ [(new_message userId d now)\<lparr>status := Delivered\<rparr>]\<rparr>,
            [(ToRoom (receiverId d), ReceiveMessage (sent_data s userId d now)),
             (ToSocket sock, MessageSent (sent_data s userId d now)),
             (ToRoom userId, MessageStatus (length (messages s)) Delivered)])
      else (s\<lparr>messages := messages s @ [new_message userId d now]\<rparr>,
            [(ToRoom (receiverId d), ReceiveMessage (sent_data s userId d now)),
             (ToSocket sock, MessageSent (sent_data s userId d now))]))"
  by (simp add: send_message_def then_resume_def send_message_start_def sent_data_def
      is_online_def findById_def findByIdAndUpdate_def new_message_def Let_def)

section \<open>Facts about the scenario\<close>

lemmas scenario_defs = lobby_def pending_def reconciled_def seen_state_def alice_hi_def state0_def
  admit_def release_def
  connection_def mark_undelivered_def find_undelivered_def updateMany_delivered_def
  notify_senders_def Set_of_def User_findByIdAndUpdate_def send_message_unfold sent_data_def
  new_message_def populate_def findById_def findByIdAndUpdate_def message_seen_def
  is_online_def Let_def

lemma lobby_rooms:
  "rooms lobby = (\<lambda>c. {})(''a1'' := {''a1'', ''alice''}, ''a2'' := {''a2'', ''alice''},
                          ''c1'' := {''c1'', ''carol''})"
  by (simp add: scenario_defs insert_commute)

lemma lobby_socket_user:
  "socket_user lobby = [''a1'' \<mapsto> ''alice'', ''a2'' \<mapsto> ''alice'', ''c1'' \<mapsto> ''carol'']"
  by (simp add: scenario_defs)

lemma lobby_activeUsers:
  "activeUsers lobby ''alice'' = Some {''a1'', ''a2''} \<and> activeUsers lobby ''bob'' = None"
  by (auto simp add: scenario_defs)

lemma lobby_messages: "messages lobby = []"
  by (simp add: scenario_defs)

lemma pending_messages: "messages pending = [new_message ''alice'' alice_hi 4]"
  by (simp add: scenario_defs)

lemma reconciled_messages:
  "messages reconciled = [(new_message ''alice'' alice_hi 4)\<lparr>status := Delivered\<rparr>]"
  by (simp add: scenario_defs)

lemma reconciled_rooms: "rooms reconciled = (rooms lobby)(''b1'' := {''b1'', ''bob''})"
  by (simp add: scenario_defs insert_commute)

lemma reconciled_socket_user: "socket_user reconciled = (socket_user lobby)(''b1'' \<mapsto> ''bob'')"
  by (simp add: scenario_defs)

lemma reconciled_online: "is_online reconciled ''bob''"
  by (simp add: scenario_defs)

lemma seen_state_messages:
  "messages seen_state = [(new_message ''alice'' alice_hi 4)\<lparr>status := Seen, seen_at := Some 6\<rparr>]"
  by (simp add: scenario_defs)

lemma seen_state_rooms: "rooms seen_state = (rooms lobby)(''b1'' := {''b1'', ''bob''})"
  by (simp add: scenario_defs insert_commute)

lemma seen_state_socket_user: "socket_user seen_state = (socket_user lobby)(''b1'' \<mapsto> ''bob'')"
  by (simp add: scenario_defs)

lemma backlog_messages:
  "messages backlog =
     [new_message ''alice'' alice_hi 4, new_message ''carol'' carol_yo 5,
      new_message ''alice'' alice_hi 6]"
  by (simp add: backlog_def carol_yo_def scenario_defs)

lemma backlog_rooms: "rooms backlog = rooms lobby"
  by (simp add: backlog_def carol_yo_def scenario_defs lobby_rooms [unfolded lobby_def state0_def])

lemma race_until_seen_world:
  "sched_run (reconciled, []) race_until_seen =
     ((reconciled\<lparr>messages :=
          [(new_message ''alice'' alice_hi 4)\<lparr>status := Delivered\<rparr>,
           (new_message ''alice'' alice_hi 7)\<lparr>status := Seen, seen_at := Some 8\<rparr>]\<rparr>,
       [(None, AwaitFindById ''alice'' 1 (Some (new_message ''alice'' alice_hi 7)))]),
      [(ToRoom ''bob'', ReceiveMessage (1, new_message ''alice'' alice_hi 7, None)),
       (ToSocket ''a1'', MessageSent (1, new_message ''alice'' alice_hi 7, None)),
       (ToRoom ''alice'', MessageStatus 1 Seen)])"
  using reconciled_online
  by (simp add: race_until_seen_def reconciled_socket_user lobby_socket_user reconciled_messages
      send_message_start_def message_seen_def populate_def findById_def findByIdAndUpdate_def
      is_online_def new_message_def alice_hi_def)

section \<open>The delivery status when no run is interrupted\<close>

lemma rank_le_Seen: "rank st \<le> rank Seen"
  by (cases st) simp_all

lemma rank_Seen_eq: "rank Seen \<le> rank st \<Longrightarrow> st = Seen"
  by (cases st) simp_all

lemma mark_undelivered_status:
  assumes "i < length (messages s)"
  shows "i < length (messages (fst (mark_undelivered s userId fault))) \<and>
         rank (status (messages s ! i))
           \<le> rank (status (messages (fst (mark_undelivered s userId fault)) ! i))"
  using assms by (simp add: mark_undelivered_def updateMany_delivered_def Let_def)

text \<open>
  The connection handler is the reconciliation block run on the state with the socket
  registered, followed by the join; the stored messages are those the block leaves.
\<close>

lemma connection_as_mark_undelivered:
  "\<exists>s1. messages s1 = messages s \<and>
         messages (fst (connection s sock userId now fault)) =
           messages (fst (mark_undelivered s1 userId fault)) \<and>
         snd (connection s sock userId now fault) =
           (ToAll, UserOnline userId now) # snd (mark_undelivered s1 userId fault)"
proof -
  let ?au0 = "if activeUsers s userId = None then (activeUsers s)(userId \<mapsto> {})
              else activeUsers s"
  let ?s1 = "s\<lparr>activeUsers :=
                 ?au0(userId \<mapsto> insert sock (case ?au0 userId of None \<Rightarrow> {} | Some socks \<Rightarrow> socks)),
               last_seen := User_findByIdAndUpdate (last_seen s) userId now\<rparr>"
  have "messages ?s1 = messages s" by simp
  moreover have "messages (fst (connection s sock userId now fault)) =
      messages (fst (mark_undelivered ?s1 userId fault))"
    by (simp add: connection_def Let_def split: prod.splits)
  moreover have "snd (connection s sock userId now fault) =
      (ToAll, UserOnline userId now) # snd (mark_undelivered ?s1 userId fault)"
    by (simp add: connection_def Let_def split: prod.splits)
  ultimately show ?thesis by blast
qed

lemma connection_status:
  assumes "i < length (messages s)"
  shows "i < length (messages (fst (connection s sock userId now fault))) \<and>
         rank (status (messages s ! i))
           \<le> rank (status (messages (fst (connection s sock userId now fault)) ! i))"
proof -
  obtain s1 where s1: "messages s1 = messages s"
    "messages (fst (connection s sock userId now fault)) =
       messages (fst (mark_undelivered s1 userId fault))"
    using connection_as_mark_undelivered [of s sock userId now fault] by blast
  have "i < length (messages s1)" using assms s1(1) by simp
  then show ?thesis
    using mark_undelivered_status [of i s1 userId fault] s1 by simp
qed

lemma send_message_status:
  assumes "i < length (messages s)"
  shows "i < length (messages (fst (send_message s sock userId d now fault))) \<and>
         rank (status (messages s ! i))
           \<le> rank (status (messages (fst (send_message s sock userId d now fault)) ! i))"
  using assms by (simp add: send_message_unfold nth_append)

lemma message_seen_status:
  assumes "i < length (messages s)"
  shows "i < length (messages (fst (message_seen s messageId senderId now fault))) \<and>
         rank (status (messages s ! i))
           \<le> rank (status (messages (fst (message_seen s messageId senderId now fault)) ! i))"
  using assms rank_le_Seen [of "status (messages s ! i)"]
  by (auto simp add: message_seen_def findByIdAndUpdate_def nth_list_update)

lemma react_message_status:
  assumes "i < length (messages s)"
  shows "i < length (messages (fst (react_message s userId messageId emoji fault))) \<and>
         rank (status (messages s ! i))
           \<le> rank (status (messages (fst (react_message s userId messageId emoji fault)) ! i))"
  using assms
  by (auto simp add: react_message_def findById_def nth_list_update Let_def
      split: option.splits if_splits)

lemma disconnect_messages: "messages (fst (disconnect s sock userId now)) = messages s"
  by (simp add: disconnect_def split: option.splits)

lemma handle_status:
  assumes "i < length (messages s)"
  shows "i < length (messages (fst (handle s sock userId ev now fault))) \<and>
         rank (status (messages s ! i))
           \<le> rank (status (messages (fst (handle s sock userId ev now fault)) ! i))"
proof (cases ev)
  case (SendMessage d)
  then show ?thesis using send_message_status [OF assms] by simp
next
  case (MessageSeen messageId senderId)
  then show ?thesis using message_seen_status [OF assms] by simp
next
  case (ReactMessage messageId emoji)
  then show ?thesis using react_message_status [OF assms] by simp
next
  case (TypingTo r)
  then show ?thesis using assms by (simp add: typing_def)
next
  case (StopTypingTo r)
  then show ?thesis using assms by (simp add: stop_typing_def)
next
  case Disconnect
  then show ?thesis using assms by (simp add: disconnect_messages release_def)
qed

lemma step_status:
  assumes "i < length (messages s)"
  shows "i < length (messages (fst (step s e))) \<and>
         rank (status (messages s ! i)) \<le> rank (status (messages (fst (step s e)) ! i))"
proof -
  obtain ev now fault where e: "e = (ev, now, fault)" by (cases e) auto
  show ?thesis
  proof (cases ev)
    case (Connect sock decoded)
    show ?thesis
    proof (cases decoded)
      case None
      then show ?thesis using e Connect assms by simp
    next
      case (Some userId)
      have "i < length (messages (admit s sock userId))"
        using assms by (simp add: admit_def)
      then show ?thesis
        using e Connect Some connection_status [of i "admit s sock userId" sock userId now fault]
        by (simp add: admit_def)
    qed
  next
    case (FromSocket sock inb)
    then show ?thesis using e assms handle_status [OF assms]
      by (cases "socket_user s sock") simp_all
  qed
qed

lemma run_status:
  "i < length (messages s) \<Longrightarrow>
     i < length (messages (fst (run s es))) \<and>
     rank (status (messages s ! i)) \<le> rank (status (messages (fst (run s es)) ! i))"
proof (induction es arbitrary: s)
  case Nil
  then show ?case by simp
next
  case (Cons e es)
  obtain s1 out1 where st: "step s e = (s1, out1)" by (cases "step s e") auto
  have a: "i < length (messages s1)"
    "rank (status (messages s ! i)) \<le> rank (status (messages s1 ! i))"
    using step_status [OF Cons.prems, of e] st by simp_all
  have "fst (run s (e # es)) = fst (run s1 es)"
    using st by (simp split: prod.splits)
  then show ?case using Cons.IH [OF a(1)] a(2) by simp
qed

section \<open>A message_seen between the re-read and the write\<close>

text \<open>
  So when every run of \<open>send_message\<close> goes to its end before the next event is handled, no
  status moves backwards. The guard reads and the write follows at a later \<open>await\<close>: a
  \<open>message_seen\<close> that is handled in between is overwritten.
\<close>

lemma sched_run_append:
  "sched_run w (ms @ ns) =
     (case sched_run w ms of
        (w1, out1) \<Rightarrow> (case sched_run w1 ns of (w2, out2) \<Rightarrow> (w2, out1 @ out2)))"
  by (induction ms arbitrary: w) (simp_all split: prod.splits)

lemma race_world:
  "sched_run (reconciled, []) race =
     ((reconciled\<lparr>messages :=
          [(new_message ''alice'' alice_hi 4)\<lparr>status := Delivered\<rparr>,
           (new_message ''alice'' alice_hi 7)\<lparr>status := Delivered, seen_at := Some 8\<rparr>]\<rparr>,
       []),
      [(ToRoom ''bob'', ReceiveMessage (1, new_message ''alice'' alice_hi 7, None)),
       (ToSocket ''a1'', MessageSent (1, new_message ''alice'' alice_hi 7, None)),
       (ToRoom ''alice'', MessageStatus 1 Seen),
       (ToRoom ''alice'', MessageStatus 1 Delivered)])"
  by (simp add: race_def sched_run_append race_until_seen_world findByIdAndUpdate_def
      new_message_def)

text \<open>
  C1. The claim is that no event changes a \<open>seen\<close> message back to \<open>delivered\<close>, and in
  particular that the sent-to-delivered step of the \<open>send_message\<close> handler never
  overwrites a status that has advanced past \<open>sent\<close>. In the race, message 1 is \<open>seen\<close>
  when the suspended run is resumed; the run tested the document it had read before, and
  its write stores \<open>delivered\<close> over \<open>seen\<close>. Alice's socket a1 receives the status
  events in the order seen, delivered.
\<close>

theorem seen_overwritten_by_delivered:
  "status (messages (fst (fst (sched_run (reconciled, []) race_until_seen))) ! 1) = Seen \<and>
   status (messages (fst (fst (sched_run (reconciled, []) race))) ! 1) = Delivered \<and>
   filter is_message_status (inbox (rooms reconciled) ''a1'' (snd (sched_run (reconciled, []) race)))
     = [MessageStatus 1 Seen, MessageStatus 1 Delivered]"
  by (simp add: race_world race_until_seen_world inbox_def reconciled_rooms lobby_rooms)

text \<open>
  Resuming a run at once, four times, is the uninterrupted run of \<open>step\<close>.
\<close>

lemma uninterrupted_send:
  assumes "socket_user s sock = Some userId"
  shows "fst (fst (sched_run (s, [])
           [Arrive (FromSocket sock (SendMessage d), now, fault), Resume 0, Resume 0, Resume 0, Resume 0]))
           = fst (step s (FromSocket sock (SendMessage d), now, fault)) \<and>
         snd (sched_run (s, [])
           [Arrive (FromSocket sock (SendMessage d), now, fault), Resume 0, Resume 0, Resume 0, Resume 0])
           = snd (step s (FromSocket sock (SendMessage d), now, fault))"
  using assms
  by (simp add: send_message_unfold send_message_start_def sent_data_def is_online_def
      findById_def findByIdAndUpdate_def new_message_def Let_def)

text \<open>
  The earlier variant writes \<open>delivered\<close> without reading the message again. The write
  goes to the message created by the same run of the handler, so when each of its runs
  goes to its end before the next event is handled, its stored statuses only move forward
  as well.
\<close>

lemma send_message_v1_status:
  assumes "i < length (messages_v1 s)"
  shows "i < length (messages_v1 (fst (send_message_v1 s sock userId d now fault))) \<and>
         rank (status (messages_v1 s ! i))
           \<le> rank (status (messages_v1 (fst (send_message_v1 s sock userId d now fault)) ! i))"
  using assms
  by (simp add: send_message_v1_def findByIdAndUpdate_def Let_def nth_append)

lemma message_seen_v1_status:
  assumes "i < length (messages_v1 s)"
  shows "i < length (messages_v1 (fst (message_seen_v1 s messageId senderId now fault))) \<and>
         rank (status (messages_v1 s ! i))
           \<le> rank (status (messages_v1 (fst (message_seen_v1 s messageId senderId now fault)) ! i))"
  using assms rank_le_Seen [of "status (messages_v1 s ! i)"]
  by (auto simp add: message_seen_v1_def findByIdAndUpdate_def nth_list_update)

lemma step_v1_status:
  assumes "i < length (messages_v1 s)"
  shows "i < length (messages_v1 (fst (step_v1 s e))) \<and>
         rank (status (messages_v1 s ! i)) \<le> rank (status (messages_v1 (fst (step_v1 s e)) ! i))"
proof -
  obtain ev now fault where e: "e = (ev, now, fault)" by (cases e) auto
  show ?thesis
  proof (cases ev)
    case (Connect sock decoded)
    then show ?thesis using e assms
      by (cases decoded) (simp_all add: connection_v1_def)
  next
    case (FromSocket sock inb)
    show ?thesis
    proof (cases "socket_user_v1 s sock")
      case None
      then show ?thesis using e FromSocket assms by simp
    next
      case (Some userId)
      then show ?thesis
        using e FromSocket assms send_message_v1_status [OF assms]
          message_seen_v1_status [OF assms]
        by (cases inb) (simp_all add: disconnect_v1_def)
    qed
  qed
qed

lemma run_v1_status:
  "i < length (messages_v1 s) \<Longrightarrow>
     i < length (messages_v1 (fst (run_v1 s es))) \<and>
     rank (status (messages_v1 s ! i)) \<le> rank (status (messages_v1 (fst (run_v1 s es)) ! i))"
proof (induction es arbitrary: s)
  case Nil
  then show ?case by simp
next
  case (Cons e es)
  obtain s1 out1 where st: "step_v1 s e = (s1, out1)" by (cases "step_v1 s e") auto
  have a: "i < length (messages_v1 s1)"
    "rank (status (messages_v1 s ! i)) \<le> rank (status (messages_v1 s1 ! i))"
    using step_v1_status [OF Cons.prems, of e] st by simp_all
  have "fst (run_v1 s (e # es)) = fst (run_v1 s1 es)"
    using st by (simp split: prod.splits)
  then show ?case using Cons.IH [OF a(1)] a(2) by simp
qed

section \<open>Presence broadcasts\<close>

text \<open>
  The connection handler broadcasts \<open>user_online\<close> on every run; what follows it are the
  reconciliation notices. The \<open>disconnect\<close> handler broadcasts \<open>user_offline\<close> exactly when
  the closed socket was the last one of the user's entry.
\<close>

lemma connection_always_online:
  "\<exists>notes. snd (connection s sock userId now fault) = (ToAll, UserOnline userId now) # notes \<and>
     (\<forall>e \<in> set notes. \<exists>r i. e = (ToRoom r, MessageStatus i Delivered))"
  by (auto simp add: connection_def mark_undelivered_def notify_senders_def Let_def
      split: prod.splits)

lemma disconnect_offline_iff_last:
  "snd (disconnect s sock userId now) =
     (case activeUsers s userId of
        None \<Rightarrow> []
      | Some userSockets \<Rightarrow>
          if userSockets - {sock} = {} then [(ToAll, UserOffline userId now)] else [])"
  by (simp add: disconnect_def split: option.splits)

text \<open>The connecting socket is connected when the broadcast is made, and receives it.\<close>

lemma connecting_socket_gets_own_online:
  "\<exists>rest. inbox (rooms (admit s sock userId)) sock
            (snd (step s (Connect sock (Some userId), now, fault))) = UserOnline userId now # rest"
proof -
  obtain ns where "snd (connection (admit s sock userId) sock userId now fault) =
      (ToAll, UserOnline userId now) # ns"
    using connection_always_online [of "admit s sock userId" sock userId now fault] by blast
  then show ?thesis by (simp add: inbox_def admit_def)
qed

text \<open>
  C2. The claim is that \<open>user_online\<close> is broadcast once per transition of the user's
  connection set from empty to non-empty, so that a second simultaneous connection
  broadcasts none. Here Alice connects with socket a1 and then, still online, with socket
  a2: the second connection broadcasts \<open>user_online\<close> again. Closing one of the two sockets
  broadcasts nothing, and closing the last one broadcasts \<open>user_offline\<close>.
\<close>

theorem second_connection_broadcasts_online:
  "is_online (fst (step state0 (Connect ''a1'' (Some ''alice''), 1, None))) ''alice'' \<and>
   snd (step (fst (step state0 (Connect ''a1'' (Some ''alice''), 1, None)))
          (Connect ''a2'' (Some ''alice''), 2, None)) = [(ToAll, UserOnline ''alice'' 2)] \<and>
   snd (run state0
          [(Connect ''a1'' (Some ''alice''), 1, None),
           (Connect ''a2'' (Some ''alice''), 2, None),
           (FromSocket ''a1'' Disconnect, 3, None),
           (FromSocket ''a2'' Disconnect, 4, None)]) =
     [(ToAll, UserOnline ''alice'' 1), (ToAll, UserOnline ''alice'' 2),
      (ToAll, UserOffline ''alice'' 4)]"
  by (simp add: scenario_defs disconnect_def insert_Diff_if)

section \<open>Sending a message\<close>

lemma send_message_out:
  assumes "fault \<noteq> Some MessageSave" and "fault \<noteq> Some MessagePopulate"
  shows "\<exists>st. snd (send_message s sock userId d now fault) =
           [(ToRoom (receiverId d), ReceiveMessage (sent_data s userId d now)),
            (ToSocket sock, MessageSent (sent_data s userId d now))] @ st \<and>
          (st = [] \<or> st = [(ToRoom userId, MessageStatus (length (messages s)) Delivered)])"
  using assms by (simp add: send_message_unfold)

text \<open>
  C3, as claimed: when the persistence write fails, the sender's connection receives an
  explicit failure acknowledgment. Here Alice sends from socket a1 and \<open>save\<close> throws:
  socket a1 receives nothing at all.
\<close>

theorem save_failure_is_not_acknowledged:
  "inbox (rooms lobby) ''a1''
     (snd (step lobby (FromSocket ''a1'' (SendMessage alice_hi), 4, Some MessageSave))) = []"
  by (simp add: lobby_rooms lobby_socket_user send_message_unfold inbox_def)

text \<open>
  C3, amended. When \<open>save\<close> throws, the handler changes no state and emits nothing to any
  connection: no \<open>receive_message\<close>, no \<open>message_sent\<close>, and no failure acknowledgment (the
  error is only logged). When neither \<open>save\<close> nor the population of the reply reference
  throws, the submitting connection receives the \<open>message_sent\<close> echo, once.
\<close>

theorem send_message_save_failure:
  assumes "fault \<noteq> Some MessageSave" and "fault \<noteq> Some MessagePopulate"
  shows "send_message s sock userId d now (Some MessageSave) = (s, []) \<and>
         filter is_message_sent (inbox rs sock (snd (send_message s sock userId d now fault))) =
           [MessageSent (sent_data s userId d now)]"
proof -
  have "send_message s sock userId d now (Some MessageSave) = (s, [])"
    by (simp add: send_message_unfold)
  moreover have "filter is_message_sent
      (inbox rs sock (snd (send_message s sock userId d now fault))) =
        [MessageSent (sent_data s userId d now)]"
    using send_message_out [OF assms, of s sock userId d now] by (auto simp add: inbox_def)
  ultimately show ?thesis by blast
qed

theorem send_message_save_failure_witness:
  "send_message lobby ''a1'' ''alice'' alice_hi 4 (Some MessageSave) = (lobby, []) \<and>
   filter is_message_sent
     (inbox (rooms lobby) ''a1'' (snd (send_message lobby ''a1'' ''alice'' alice_hi 4 None))) =
     [MessageSent (0, new_message ''alice'' alice_hi 4, None)]"
proof -
  have f: "(None :: store_call option) \<noteq> Some MessageSave"
    "(None :: store_call option) \<noteq> Some MessagePopulate" by simp_all
  have d: "sent_data lobby ''alice'' alice_hi 4 = (0, new_message ''alice'' alice_hi 4, None)"
    by (simp add: sent_data_def lobby_messages populate_def new_message_def alice_hi_def)
  show ?thesis
    using send_message_save_failure [OF f, of lobby "''a1''" "''alice''" alice_hi 4 "rooms lobby"]
    by (simp add: d)
qed

text \<open>
  C7, as claimed: the \<open>message_sent\<close> acknowledgment reaches every live connection of the
  sender. Here Alice has sockets a1 and a2 open and sends from a1: socket a2 receives
  nothing.
\<close>

theorem other_tab_gets_no_echo:
  "activeUsers lobby ''alice'' = Some {''a1'', ''a2''} \<and> ''alice'' \<in> rooms lobby ''a2'' \<and>
   inbox (rooms lobby) ''a2''
     (snd (step lobby (FromSocket ''a1'' (SendMessage alice_hi), 4, None))) = []"
proof -
  have "\<not> is_online lobby ''bob''"
    using lobby_activeUsers by (simp add: is_online_def)
  then show ?thesis
    using lobby_activeUsers
    by (simp add: lobby_rooms lobby_socket_user send_message_unfold inbox_def alice_hi_def)
qed

text \<open>
  C7, amended. For every \<open>send_message\<close> whose \<open>save\<close> and reply population succeed, the
  handler emits exactly one \<open>message_sent\<close>, carrying the stored record, and addresses it
  to the submitting socket alone: no other socket, of the sender or of anybody else,
  receives a \<open>message_sent\<close>.
\<close>

theorem message_sent_only_to_submitter:
  assumes "fault \<noteq> Some MessageSave" and "fault \<noteq> Some MessagePopulate"
  shows "filter (\<lambda>e. is_message_sent (snd e)) (snd (send_message s sock userId d now fault)) =
           [(ToSocket sock, MessageSent (sent_data s userId d now))] \<and>
         (c \<noteq> sock \<longrightarrow>
            filter is_message_sent (inbox rs c (snd (send_message s sock userId d now fault))) = [])"
  using send_message_out [OF assms, of s sock userId d now] by (auto simp add: inbox_def)

theorem message_sent_only_to_submitter_witness:
  "''a2'' \<noteq> ''a1'' \<and>
   filter (\<lambda>e. is_message_sent (snd e)) (snd (send_message lobby ''a1'' ''alice'' alice_hi 4 None)) =
     [(ToSocket ''a1'', MessageSent (0, new_message ''alice'' alice_hi 4, None))] \<and>
   filter is_message_sent
     (inbox (rooms lobby) ''a2'' (snd (send_message lobby ''a1'' ''alice'' alice_hi 4 None))) = []"
proof -
  have f: "(None :: store_call option) \<noteq> Some MessageSave"
    "(None :: store_call option) \<noteq> Some MessagePopulate" by simp_all
  have d: "sent_data lobby ''alice'' alice_hi 4 = (0, new_message ''alice'' alice_hi 4, None)"
    by (simp add: sent_data_def lobby_messages populate_def new_message_def alice_hi_def)
  have n: "''a2'' \<noteq> ''a1''" by simp
  show ?thesis
    using n message_sent_only_to_submitter [OF f, of lobby "''a1''" "''alice''" alice_hi 4
        "''a2''" "rooms lobby"]
    by (simp add: d)
qed



text \<open>
  The earlier variant has the same \<open>try\<close> block around \<open>send_message\<close> and the same
  \<open>socket.emit\<close> for the echo: a failed \<open>save\<close> emits nothing, and the echo goes to the
  submitting socket.
\<close>

lemma send_message_v1_out:
  "send_message_v1 s sock userId d now (Some MessageSave) = (s, []) \<and>
   (fault \<noteq> Some MessageSave \<longrightarrow>
      filter (\<lambda>e. is_message_sent (snd e)) (snd (send_message_v1 s sock userId d now fault)) =
        [(ToSocket sock,
          MessageSent (length (messages_v1 s), new_message userId (d\<lparr>replyTo := None\<rparr>) now, None))])"
  by (simp add: send_message_v1_def Let_def)

section \<open>Reconciliation when a user connects\<close>

lemma fold_insert_new_set:
  "set (fold (\<lambda>x acc. if x \<in> set acc then acc else acc @ [x]) xs acc) = set acc \<union> set xs"
  by (induction xs arbitrary: acc) auto

lemma fold_insert_new_distinct:
  "distinct acc \<Longrightarrow> distinct (fold (\<lambda>x acc. if x \<in> set acc then acc else acc @ [x]) xs acc)"
  by (induction xs arbitrary: acc) auto

lemma set_Set_of: "set (Set_of xs) = set xs"
  by (simp add: Set_of_def fold_insert_new_set)

lemma distinct_Set_of: "distinct (Set_of xs)"
  by (simp add: Set_of_def fold_insert_new_distinct)

text \<open>When one key of a duplicate-free list yields all the output, the other keys add nothing.\<close>

lemma concat_map_single:
  "distinct ks \<Longrightarrow> k \<in> set ks \<Longrightarrow> (\<And>k'. k' \<in> set ks \<Longrightarrow> k' \<noteq> k \<Longrightarrow> f k' = []) \<Longrightarrow>
     concat (map f ks) = f k"
proof (induction ks)
  case Nil
  then show ?case by simp
next
  case (Cons a ks)
  show ?case
  proof (cases "a = k")
    case True
    then have "k \<notin> set ks" using Cons.prems(1) by simp
    then have "\<And>k'. k' \<in> set ks \<Longrightarrow> f k' = []" using Cons.prems(3) by auto
    then have "concat (map f ks) = []" by simp
    with True show ?thesis by simp
  next
    case False
    then have "f a = []" using Cons.prems(3) by simp
    moreover have "concat (map f ks) = f k"
      using Cons.IH Cons.prems False by auto
    ultimately show ?thesis by simp
  qed
qed

lemma filter_fst_distinct:
  "distinct (map fst xs) \<Longrightarrow> (i, m) \<in> set xs \<Longrightarrow> filter (\<lambda>(j, m'). j = i) xs = [(i, m)]"
proof (induction xs)
  case Nil
  then show ?case by simp
next
  case (Cons x xs)
  show ?case
  proof (cases "fst x = i")
    case True
    then have "i \<notin> fst ` set xs" using Cons.prems(1) by auto
    then have notin: "\<And>b. (i, b) \<notin> set xs" by force
    then have none: "filter (\<lambda>(j, m'). j = i) xs = []"
      by (auto simp add: filter_empty_conv)
    have "x = (i, m)" using Cons.prems(2) notin by auto
    with none show ?thesis by simp
  next
    case False
    then have "(i, m) \<in> set xs" using Cons.prems(2) by auto
    then show ?thesis using Cons.IH Cons.prems(1) False by (cases x) auto
  qed
qed

lemma notify_senders_once:
  assumes d: "distinct (map fst und)" and mem: "(i, m) \<in> set und"
  shows "filter (\<lambda>e. snd e = MessageStatus i Delivered) (notify_senders und) =
           [(ToRoom (sender_id m), MessageStatus i Delivered)]"
proof -
  let ?P = "\<lambda>e :: emit. snd e = MessageStatus i Delivered"
  let ?g = "\<lambda>senderId. map (\<lambda>(j, m'). (ToRoom senderId, MessageStatus j Delivered))
                 (filter (\<lambda>(j, m'). sender_id m' = senderId) und)"
  let ?ks = "Set_of (map (\<lambda>(j, m'). sender_id m') und)"
  have shape: "filter ?P (notify_senders und) = concat (map (\<lambda>k. filter ?P (?g k)) ?ks)"
    by (simp add: notify_senders_def filter_concat comp_def)
  have kin: "sender_id m \<in> set ?ks"
    using mem by (force simp add: set_Set_of)
  have fg: "filter ?P (?g k) =
        map (\<lambda>(j, m'). (ToRoom k, MessageStatus j Delivered))
          (filter (\<lambda>(j, m'). sender_id m' = k) (filter (\<lambda>(j, m'). j = i) und))" for k
    by (induction und) auto
  have only: "filter (\<lambda>(j, m'). j = i) und = [(i, m)]"
    using filter_fst_distinct [OF d mem] .
  have other: "filter ?P (?g k) = []" if "k \<noteq> sender_id m" for k
    using that by (simp add: fg only)
  have own: "filter ?P (?g (sender_id m)) = [(ToRoom (sender_id m), MessageStatus i Delivered)]"
    by (simp add: fg only)
  have "concat (map (\<lambda>k. filter ?P (?g k)) ?ks) = filter ?P (?g (sender_id m))"
    by (rule concat_map_single [OF distinct_Set_of kin]) (simp add: other)
  then show ?thesis using shape own by simp
qed

lemma find_undelivered_distinct: "distinct (map fst (find_undelivered ms userId))"
  by (simp add: find_undelivered_def distinct_map_filter)

lemma find_undelivered_mem:
  "(i, m) \<in> set (find_undelivered ms userId) \<longleftrightarrow>
     i < length ms \<and> m = ms ! i \<and> receiver_id m = userId \<and> status m = Sent"
  by (auto simp add: find_undelivered_def in_set_enumerate_eq)

lemma updateMany_delivered_nth:
  "i < length ms \<Longrightarrow> receiver_id (ms ! i) = userId \<Longrightarrow> status (ms ! i) = Sent \<Longrightarrow>
     updateMany_delivered ms userId ! i = (ms ! i)\<lparr>status := Delivered\<rparr>"
  by (simp add: updateMany_delivered_def)

lemma mark_undelivered_reconciles:
  assumes "fault \<noteq> Some MessageFind" and "fault \<noteq> Some MessageUpdateMany"
    and "i < length (messages s)"
    and "receiver_id (messages s ! i) = userId"
    and "status (messages s ! i) = Sent"
  shows "messages (fst (mark_undelivered s userId fault)) ! i = (messages s ! i)\<lparr>status := Delivered\<rparr>"
    and "filter (\<lambda>e. snd e = MessageStatus i Delivered) (snd (mark_undelivered s userId fault)) =
           [(ToRoom (sender_id (messages s ! i)), MessageStatus i Delivered)]"
proof -
  have mem: "(i, messages s ! i) \<in> set (find_undelivered (messages s) userId)"
    using assms by (simp add: find_undelivered_mem)
  then have ne: "find_undelivered (messages s) userId \<noteq> []" by auto
  show "messages (fst (mark_undelivered s userId fault)) ! i = (messages s ! i)\<lparr>status := Delivered\<rparr>"
    using assms ne by (simp add: mark_undelivered_def Let_def updateMany_delivered_nth)
  show "filter (\<lambda>e. snd e = MessageStatus i Delivered) (snd (mark_undelivered s userId fault)) =
           [(ToRoom (sender_id (messages s ! i)), MessageStatus i Delivered)]"
    using assms ne notify_senders_once [OF find_undelivered_distinct mem]
    by (simp add: mark_undelivered_def Let_def)
qed

lemma inbox_filter_payload:
  "filter P (inbox rs c out) = inbox rs c (filter (\<lambda>e. P (snd e)) out)"
  by (induction out) (auto simp add: inbox_def)

text \<open>
  C4. When user U connects and neither store call of the reconciliation throws, every
  message addressed to U whose stored status is \<open>sent\<close>, whoever sent it, is stored as
  \<open>delivered\<close> afterwards (nothing else of it changes), and among all the events the
  connection emits exactly one carries \<open>message_status\<close> delivered for that message's id:
  it is addressed to the room of the message's sender, so every socket in that room
  receives it exactly once.
\<close>

theorem reconnect_reconciles:
  assumes "fault \<noteq> Some MessageFind" and "fault \<noteq> Some MessageUpdateMany"
    and "i < length (messages s)"
    and "receiver_id (messages s ! i) = userId"
    and "status (messages s ! i) = Sent"
    and "sender_id (messages s ! i) \<in> rs c"
  shows "messages (fst (connection s sock userId now fault)) ! i =
           (messages s ! i)\<lparr>status := Delivered\<rparr> \<and>
         filter (\<lambda>e. snd e = MessageStatus i Delivered) (snd (connection s sock userId now fault)) =
           [(ToRoom (sender_id (messages s ! i)), MessageStatus i Delivered)] \<and>
         filter (\<lambda>p. p = MessageStatus i Delivered)
           (inbox rs c (snd (connection s sock userId now fault))) = [MessageStatus i Delivered]"
proof -
  obtain s1 where s1: "messages s1 = messages s"
    "messages (fst (connection s sock userId now fault)) =
       messages (fst (mark_undelivered s1 userId fault))"
    "snd (connection s sock userId now fault) =
       (ToAll, UserOnline userId now) # snd (mark_undelivered s1 userId fault)"
    using connection_as_mark_undelivered [of s sock userId now fault] by blast
  have a: "i < length (messages s1)" "receiver_id (messages s1 ! i) = userId"
    "status (messages s1 ! i) = Sent"
    using assms s1(1) by simp_all
  have one: "filter (\<lambda>e. snd e = MessageStatus i Delivered)
      (snd (connection s sock userId now fault)) =
        [(ToRoom (sender_id (messages s ! i)), MessageStatus i Delivered)]"
    using mark_undelivered_reconciles(2) [OF assms(1,2) a] s1 by simp
  have "filter (\<lambda>p. p = MessageStatus i Delivered)
      (inbox rs c (snd (connection s sock userId now fault))) = [MessageStatus i Delivered]"
    using assms(6) by (simp add: inbox_filter_payload one) (simp add: inbox_def)
  then show ?thesis
    using mark_undelivered_reconciles(1) [OF assms(1,2) a] s1 one by simp
qed

theorem reconnect_reconciles_witness:
  "1 < length (messages backlog) \<and> receiver_id (messages backlog ! 1) = ''bob'' \<and>
   status (messages backlog ! 1) = Sent \<and> sender_id (messages backlog ! 1) = ''carol'' \<and>
   ''carol'' \<in> rooms backlog ''c1'' \<and>
   status (messages (fst (connection backlog ''b1'' ''bob'' 8 None)) ! 1) = Delivered \<and>
   filter (\<lambda>e. snd e = MessageStatus 1 Delivered) (snd (connection backlog ''b1'' ''bob'' 8 None)) =
     [(ToRoom ''carol'', MessageStatus 1 Delivered)] \<and>
   filter (\<lambda>p. p = MessageStatus 1 Delivered)
     (inbox (rooms backlog) ''c1'' (snd (connection backlog ''b1'' ''bob'' 8 None))) =
     [MessageStatus 1 Delivered]"
proof -
  have f: "(None :: store_call option) \<noteq> Some MessageFind"
    "(None :: store_call option) \<noteq> Some MessageUpdateMany" by simp_all
  have h: "1 < length (messages backlog)" "receiver_id (messages backlog ! 1) = ''bob''"
    "status (messages backlog ! 1) = Sent"
    by (simp_all add: backlog_messages new_message_def carol_yo_def)
  have c: "sender_id (messages backlog ! 1) = ''carol''"
    by (simp add: backlog_messages new_message_def)
  have r: "sender_id (messages backlog ! 1) \<in> rooms backlog ''c1''"
    unfolding c by (simp add: backlog_rooms lobby_rooms)
  show ?thesis
    using h c r
      reconnect_reconciles [where rs = "rooms backlog" and c = "''c1''" and sock = "''b1''"
        and now = 8, OF f h r]
    by simp
qed

text \<open>
  On the backlog of three messages from two senders, the notices come grouped by sender, in
  the order in which the senders first occur.
\<close>

lemma backlog_reconnect_emits:
  "snd (connection backlog ''b1'' ''bob'' 8 None) =
     [(ToAll, UserOnline ''bob'' 8),
      (ToRoom ''alice'', MessageStatus 0 Delivered),
      (ToRoom ''alice'', MessageStatus 2 Delivered),
      (ToRoom ''carol'', MessageStatus 1 Delivered)]"
  by (simp add: backlog_messages connection_def mark_undelivered_def find_undelivered_def
      notify_senders_def Set_of_def new_message_def alice_hi_def carol_yo_def Let_def
      enumerate_eq_zip upt_rec [of 0] upt_rec [of 1] upt_rec [of 2] upt_rec [of 3])

section \<open>Reporting a message as seen\<close>

text \<open>
  C5, as claimed: a \<open>message_seen\<close> for a message that is already \<open>seen\<close> broadcasts nothing
  more and leaves \<open>seen_at\<close> unchanged. Here message 0 is \<open>seen\<close> since time 6 and Bob
  reports it again at time 9: \<open>seen_at\<close> becomes 9 and Alice's socket a1 receives another
  \<open>message_status\<close>.
\<close>

theorem repeated_seen_is_not_a_noop:
  "status (messages seen_state ! 0) = Seen \<and> seen_at (messages seen_state ! 0) = Some 6 \<and>
   seen_at (messages (fst (step seen_state (FromSocket ''b1'' (MessageSeen 0 ''alice''), 9, None))) ! 0)
     = Some 9 \<and>
   inbox (rooms seen_state) ''a1''
     (snd (step seen_state (FromSocket ''b1'' (MessageSeen 0 ''alice''), 9, None)))
     = [MessageStatus 0 Seen]"
  by (simp add: seen_state_messages seen_state_rooms seen_state_socket_user lobby_socket_user
      lobby_rooms message_seen_def findByIdAndUpdate_def inbox_def)

text \<open>
  C5, amended. A \<open>message_seen\<close> for a message that is already \<open>seen\<close> leaves its status
  \<open>seen\<close> and every other field but \<open>seen_at\<close> as it was; unless the store call throws, it
  overwrites \<open>seen_at\<close> with the time of the new report and emits one more
  \<open>message_status\<close> seen, to the room named by the payload's \<open>senderId\<close>.
\<close>

theorem repeated_seen_keeps_status:
  assumes "findById (messages s) messageId = Some m" and "status m = Seen"
    and "fault \<noteq> Some MessageFindByIdAndUpdate"
  shows "findById (messages (fst (message_seen s messageId senderId now fault))) messageId
           = Some (m\<lparr>seen_at := Some now\<rparr>) \<and>
         snd (message_seen s messageId senderId now fault) =
           [(ToRoom senderId, MessageStatus messageId Seen)]"
  using assms
  by (auto simp add: message_seen_def findById_def findByIdAndUpdate_def split: if_splits)

theorem repeated_seen_keeps_status_witness:
  "findById (messages seen_state) 0 =
     Some ((new_message ''alice'' alice_hi 4)\<lparr>status := Seen, seen_at := Some 6\<rparr>) \<and>
   findById (messages (fst (message_seen seen_state 0 ''alice'' 9 None))) 0 =
     Some ((new_message ''alice'' alice_hi 4)\<lparr>status := Seen, seen_at := Some 9\<rparr>) \<and>
   snd (message_seen seen_state 0 ''alice'' 9 None) = [(ToRoom ''alice'', MessageStatus 0 Seen)]"
proof -
  have h: "findById (messages seen_state) 0 =
      Some ((new_message ''alice'' alice_hi 4)\<lparr>status := Seen, seen_at := Some 6\<rparr>)"
    by (simp add: seen_state_messages findById_def)
  have st: "status ((new_message ''alice'' alice_hi 4)\<lparr>status := Seen, seen_at := Some 6\<rparr>) = Seen"
    by simp
  have f: "(None :: store_call option) \<noteq> Some MessageFindByIdAndUpdate" by simp
  show ?thesis
    using h repeated_seen_keeps_status [OF h st f, of "''alice''" 9] by simp
qed

text \<open>
  An inbound event naming a message id that is not in the store: \<open>react_message\<close> returns
  at once, changing and emitting nothing. \<open>message_seen\<close> changes no stored state either,
  but, unless the store call throws, it still emits \<open>message_status\<close> seen for that id
  to the room named by the payload's \<open>senderId\<close>.
\<close>

lemma unknown_message_id:
  assumes "findById (messages s) messageId = None"
    and "fault' \<noteq> Some MessageFindByIdAndUpdate"
  shows "react_message s userId messageId emoji fault = (s, []) \<and>
         fst (message_seen s messageId senderId now fault') = s \<and>
         snd (message_seen s messageId senderId now fault') =
           [(ToRoom senderId, MessageStatus messageId Seen)]"
  using assms
  by (auto simp add: react_message_def message_seen_def findById_def findByIdAndUpdate_def
      split: if_splits)

text \<open>
  C9. The claim is that a \<open>message_seen\<close> or \<open>react_message\<close> naming a message id that is
  not in the store changes nothing and emits nothing. Here the store is empty. Carol's
  \<open>react_message\<close> for message 7 is such a no-op; her \<open>message_seen\<close> for message 7, naming
  Alice as its sender, leaves the store empty but Alice's socket a1 receives a
  \<open>message_status\<close> seen for message 7.
\<close>

theorem unknown_id_seen_is_broadcast:
  "findById (messages lobby) 7 = None \<and>
   step lobby (FromSocket ''c1'' (ReactMessage 7 ''+''), 4, None) = (lobby, []) \<and>
   messages (fst (step lobby (FromSocket ''c1'' (MessageSeen 7 ''alice''), 4, None))) = [] \<and>
   inbox (rooms lobby) ''a1''
     (snd (step lobby (FromSocket ''c1'' (MessageSeen 7 ''alice''), 4, None)))
     = [MessageStatus 7 Seen]"
  by (simp add: lobby_messages lobby_rooms lobby_socket_user message_seen_def react_message_def
      findById_def findByIdAndUpdate_def inbox_def)

text \<open>
  C10, as claimed: whenever the payload's \<open>senderId\<close> differs from the stored sender, the
  true sender's connections receive no status event. Here message 0 is from Alice, and Bob
  reports it as seen naming a1, the socket id of one of Alice's connections, as its sender:
  a1 is not Alice's user id, and Alice's socket a1 receives the status event.
\<close>

theorem seen_reaches_true_sender_by_socket_id:
  "findById (messages reconciled) 0 = Some ((new_message ''alice'' alice_hi 4)\<lparr>status := Delivered\<rparr>) \<and>
   sender_id ((new_message ''alice'' alice_hi 4)\<lparr>status := Delivered\<rparr>) \<noteq> ''a1'' \<and>
   socket_user reconciled ''a1'' = Some ''alice'' \<and>
   inbox (rooms reconciled) ''a1''
     (snd (step reconciled (FromSocket ''b1'' (MessageSeen 0 ''a1''), 6, None))) = [MessageStatus 0 Seen]"
  by (simp add: reconciled_messages reconciled_rooms reconciled_socket_user lobby_socket_user
      lobby_rooms findById_def new_message_def message_seen_def inbox_def)

text \<open>
  C10, amended. Unless the store call throws, a \<open>message_seen\<close> emits exactly one event,
  \<open>message_status\<close> seen, addressed to the room named by the payload's \<open>senderId\<close>; the
  stored message is not consulted. A socket receives the event exactly when it is in that
  room, which is the case when \<open>senderId\<close> is the user id whose personal room the socket
  joined or the socket's own id. So when \<open>senderId\<close> differs from the stored sender and
  from the socket id of a connection of the true sender, that connection receives nothing,
  and every socket in the named room receives the status event.
\<close>

theorem seen_routed_by_payload_sender:
  assumes "fault \<noteq> Some MessageFindByIdAndUpdate"
    and "findById (messages s) messageId = Some m"
    and "sender_id m \<noteq> senderId"
    and "rooms s c = {c, sender_id m}"
    and "senderId \<noteq> c"
    and "senderId \<in> rooms s c'"
  shows "snd (message_seen s messageId senderId now fault) =
           [(ToRoom senderId, MessageStatus messageId Seen)] \<and>
         inbox (rooms s) c (snd (message_seen s messageId senderId now fault)) = [] \<and>
         inbox (rooms s) c' (snd (message_seen s messageId senderId now fault)) =
           [MessageStatus messageId Seen] \<and>
         inbox rs c2 (snd (message_seen s messageId senderId now fault)) =
           (if senderId \<in> rs c2 then [MessageStatus messageId Seen] else [])"
  using assms by (auto simp add: message_seen_def inbox_def)

theorem seen_routed_by_payload_sender_witness:
  "findById (messages reconciled) 0 = Some ((new_message ''alice'' alice_hi 4)\<lparr>status := Delivered\<rparr>) \<and>
   rooms reconciled ''a1'' = {''a1'', ''alice''} \<and> ''carol'' \<in> rooms reconciled ''c1'' \<and>
   inbox (rooms reconciled) ''a1'' (snd (message_seen reconciled 0 ''carol'' 6 None)) = [] \<and>
   inbox (rooms reconciled) ''c1'' (snd (message_seen reconciled 0 ''carol'' 6 None)) =
     [MessageStatus 0 Seen]"
proof -
  let ?m = "(new_message ''alice'' alice_hi 4)\<lparr>status := Delivered\<rparr>"
  have h: "findById (messages reconciled) 0 = Some ?m"
    by (simp add: reconciled_messages findById_def)
  have a: "sender_id ?m = ''alice''"
    by (simp add: new_message_def)
  have n: "sender_id ?m \<noteq> ''carol''"
    by (simp add: a)
  have r: "rooms reconciled ''a1'' = {''a1'', sender_id ?m}"
    unfolding a by (simp add: reconciled_rooms lobby_rooms)
  have r': "''carol'' \<in> rooms reconciled ''c1''"
    by (simp add: reconciled_rooms lobby_rooms)
  have d: "''carol'' \<noteq> ''a1''" by simp
  have f: "(None :: store_call option) \<noteq> Some MessageFindByIdAndUpdate" by simp
  show ?thesis
    using h r r' seen_routed_by_payload_sender
      [where c = "''a1''" and now = 6 and c' = "''c1''", OF f h n r d r']
    unfolding a by blast
qed

text \<open>The \<open>message_seen\<close> handler of the earlier variant is the same function of the store.\<close>

lemma message_seen_v1_same:
  "messages_v1 (fst (message_seen_v1 s1 messageId senderId now fault)) =
     messages (fst (message_seen (s\<lparr>messages := messages_v1 s1\<rparr>) messageId senderId now fault)) \<and>
   snd (message_seen_v1 s1 messageId senderId now fault) =
     snd (message_seen (s\<lparr>messages := messages_v1 s1\<rparr>) messageId senderId now fault)"
  by (simp add: message_seen_v1_def message_seen_def)

section \<open>Reactions\<close>

lemma find_reaction_None:
  "(emoji, userId) \<notin> set rs \<Longrightarrow> find (\<lambda>r. snd r = userId \<and> fst r = emoji) rs = None"
  by (auto simp add: find_None_iff)

lemma find_reaction_Some:
  "(emoji, userId) \<in> set rs \<Longrightarrow>
     find (\<lambda>r. snd r = userId \<and> fst r = emoji) rs = Some (emoji, userId)"
proof (induction rs)
  case Nil
  then show ?case by simp
next
  case (Cons r rs)
  then show ?case by (cases r) auto
qed

lemma toggle_reaction_absent:
  "(emoji, userId) \<notin> set rs \<Longrightarrow> toggle_reaction rs userId emoji = rs @ [(emoji, userId)]"
  by (simp add: toggle_reaction_def find_reaction_None)

lemma toggle_reaction_present:
  "(emoji, userId) \<in> set rs \<Longrightarrow> toggle_reaction rs userId emoji = remove1 (emoji, userId) rs"
  by (simp add: toggle_reaction_def find_reaction_Some)


lemma toggle_reaction_distinct:
  "distinct rs \<Longrightarrow> distinct (toggle_reaction rs userId emoji)"
  by (cases "(emoji, userId) \<in> set rs")
     (simp_all add: toggle_reaction_absent toggle_reaction_present)




text \<open>
  No handler produces a duplicate pair: the reaction lists of every state reached from the
  empty one are duplicate-free.
\<close>

lemma mark_undelivered_reactions_ok:
  "reactions_ok s \<Longrightarrow> reactions_ok (fst (mark_undelivered s userId fault))"
  by (simp add: reactions_ok_def mark_undelivered_def updateMany_delivered_def Let_def
      list_all_length)

lemma connection_reactions_ok:
  assumes "reactions_ok s"
  shows "reactions_ok (fst (connection s sock userId now fault))"
proof -
  obtain s1 where s1: "messages s1 = messages s"
    "messages (fst (connection s sock userId now fault)) =
       messages (fst (mark_undelivered s1 userId fault))"
    using connection_as_mark_undelivered [of s sock userId now fault] by blast
  have "reactions_ok s1" using assms s1(1) by (simp add: reactions_ok_def)
  then show ?thesis
    using mark_undelivered_reactions_ok [of s1 userId fault] s1(2)
    by (simp add: reactions_ok_def)
qed

lemma send_message_reactions_ok:
  "reactions_ok s \<Longrightarrow> reactions_ok (fst (send_message s sock userId d now fault))"
  by (simp add: send_message_unfold reactions_ok_def new_message_def)

lemma message_seen_reactions_ok:
  "reactions_ok s \<Longrightarrow> reactions_ok (fst (message_seen s messageId senderId now fault))"
  by (auto simp add: reactions_ok_def message_seen_def findByIdAndUpdate_def
      list_all_length nth_list_update)

lemma react_message_reactions_ok:
  "reactions_ok s \<Longrightarrow> reactions_ok (fst (react_message s userId messageId emoji fault))"
  by (auto simp add: reactions_ok_def react_message_def findById_def Let_def
      list_all_length nth_list_update toggle_reaction_distinct split: option.splits if_splits)

lemma step_reactions_ok:
  assumes "reactions_ok s"
  shows "reactions_ok (fst (step s e))"
proof -
  obtain ev now fault where e: "e = (ev, now, fault)" by (cases e) auto
  show ?thesis
  proof (cases ev)
    case (Connect sock decoded)
    show ?thesis
    proof (cases decoded)
      case None
      then show ?thesis using e Connect assms by simp
    next
      case (Some userId)
      have "reactions_ok (admit s sock userId)"
        using assms by (simp add: reactions_ok_def admit_def)
      then show ?thesis
        using e Connect Some
          connection_reactions_ok [of "admit s sock userId" sock userId now fault]
        by simp
    qed
  next
    case (FromSocket sock inb)
    show ?thesis
    proof (cases "socket_user s sock")
      case None
      then show ?thesis using e FromSocket assms by simp
    next
      case (Some userId)
      then show ?thesis
        using e FromSocket assms send_message_reactions_ok [OF assms]
          message_seen_reactions_ok [OF assms] react_message_reactions_ok [OF assms]
        by (cases inb)
           (simp_all add: typing_def stop_typing_def reactions_ok_def disconnect_messages
              release_def)
    qed
  qed
qed

lemma run_reactions_ok: "reactions_ok s \<Longrightarrow> reactions_ok (fst (run s es))"
proof (induction es arbitrary: s)
  case Nil
  then show ?case by simp
next
  case (Cons e es)
  have "fst (run s (e # es)) = fst (run (fst (step s e)) es)"
    by (simp split: prod.splits)
  then show ?case using Cons.IH [OF step_reactions_ok [OF Cons.prems]] by simp
qed

lemma reachable_reactions_ok: "reactions_ok (fst (run state0 es))"
  by (rule run_reactions_ok) (simp add: reactions_ok_def state0_def)

text \<open>
  When the pair was present and not last, toggling twice moves it to the end of the array.
\<close>

lemma toggle_twice_moves_present_pair:
  "toggle_reaction (toggle_reaction [(''+'', ''alice''), (''!'', ''bob'')] ''alice'' ''+'')
     ''alice'' ''+'' = [(''!'', ''bob''), (''+'', ''alice'')]"
  by (simp add: toggle_reaction_def)



section \<open>The rooms of a socket\<close>

text \<open>
  In every state reached from the empty one, a connected socket is in two rooms, the one
  of its own id and the personal room of its user, and a socket that is not connected is
  in none.
\<close>

lemma mark_undelivered_keeps: "rooms (fst (mark_undelivered s userId fault)) = rooms s \<and>
    socket_user (fst (mark_undelivered s userId fault)) = socket_user s"
  by (simp add: mark_undelivered_def Let_def)

lemma connection_rooms:
  "rooms (fst (connection s sock userId now fault)) = (rooms s)(sock := insert userId (rooms s sock)) \<and>
   socket_user (fst (connection s sock userId now fault)) = socket_user s"
proof -
  let ?au0 = "if activeUsers s userId = None then (activeUsers s)(userId \<mapsto> {})
              else activeUsers s"
  let ?s1 = "s\<lparr>activeUsers :=
                 ?au0(userId \<mapsto> insert sock (case ?au0 userId of None \<Rightarrow> {} | Some socks \<Rightarrow> socks)),
               last_seen := User_findByIdAndUpdate (last_seen s) userId now\<rparr>"
  have k: "rooms (fst (mark_undelivered ?s1 userId fault)) = rooms s"
    "socket_user (fst (mark_undelivered ?s1 userId fault)) = socket_user s"
    using mark_undelivered_keeps [of ?s1 userId fault] by simp_all
  have "fst (connection s sock userId now fault) =
      (fst (mark_undelivered ?s1 userId fault))
        \<lparr>rooms := (rooms (fst (mark_undelivered ?s1 userId fault)))
                    (sock := insert userId (rooms (fst (mark_undelivered ?s1 userId fault)) sock))\<rparr>"
    by (simp add: connection_def Let_def split: prod.splits)
  then show ?thesis using k by simp
qed

lemma handle_rooms:
  "ev \<noteq> Disconnect \<Longrightarrow>
     rooms (fst (handle s sock userId ev now fault)) = rooms s \<and>
     socket_user (fst (handle s sock userId ev now fault)) = socket_user s"
  by (cases ev)
     (auto simp add: send_message_unfold message_seen_def react_message_def typing_def
        stop_typing_def Let_def split: option.splits)

lemma disconnect_rooms:
  "rooms (fst (disconnect s sock userId now)) = rooms s \<and>
   socket_user (fst (disconnect s sock userId now)) = socket_user s"
  by (simp add: disconnect_def split: option.splits)

lemma step_socket_rooms_ok:
  assumes "\<And>c. socket_rooms_ok s c"
  shows "socket_rooms_ok (fst (step s e)) c"
proof -
  obtain ev now fault where e: "e = (ev, now, fault)" by (cases e) auto
  show ?thesis
  proof (cases ev)
    case (Connect sock decoded)
    show ?thesis
    proof (cases decoded)
      case None
      then show ?thesis using e Connect assms by simp
    next
      case (Some userId)
      then show ?thesis
        using e Connect assms [of c] connection_rooms [of "admit s sock userId" sock userId now fault]
        by (auto simp add: socket_rooms_ok_def admit_def split: option.splits)
    qed
  next
    case (FromSocket sock inb)
    show ?thesis
    proof (cases "socket_user s sock")
      case None
      then show ?thesis using e FromSocket assms by simp
    next
      case (Some userId)
      show ?thesis
      proof (cases "inb = Disconnect")
        case True
        then show ?thesis
          using e FromSocket Some assms [of c] disconnect_rooms [of "release s sock" sock userId now]
          by (auto simp add: socket_rooms_ok_def release_def split: option.splits)
      next
        case False
        then show ?thesis
          using e FromSocket Some assms [of c] handle_rooms [OF False, of s sock userId now fault]
          by (auto simp add: socket_rooms_ok_def split: option.splits)
      qed
    qed
  qed
qed

lemma run_socket_rooms_ok:
  "(\<forall>c. socket_rooms_ok s c) \<Longrightarrow> (\<forall>c. socket_rooms_ok (fst (run s es)) c)"
proof (induction es arbitrary: s)
  case Nil
  then show ?case by simp
next
  case (Cons e es)
  have "fst (run s (e # es)) = fst (run (fst (step s e)) es)"
    by (simp split: prod.splits)
  moreover have "\<forall>c. socket_rooms_ok (fst (step s e)) c"
    using step_socket_rooms_ok [of s e] Cons.prems by blast
  ultimately show ?case using Cons.IH [of "fst (step s e)"] by simp
qed

lemma reachable_socket_rooms_ok: "socket_rooms_ok (fst (run state0 es)) c"
  using run_socket_rooms_ok [of state0 es] by (simp add: socket_rooms_ok_def state0_def)


end
